theory Spec2Isabelle
  imports Complex_Main "HOL-Library.Sublist"
begin

section \<open>JavaScript numbers\<close>

text \<open>
  A JavaScript number is a finite value, one of the two infinities, or NaN. Finite values
  are modelled as reals: the rounding error and the overflow of IEEE doubles are outside
  the model, and so is the sign of zero (a zero divisor counts as a positive zero).
\<close>

datatype jsnum = NaN | NegInf | Fin real | PosInf

definition jsinf :: "bool \<Rightarrow> jsnum" where
  "jsinf neg = (if neg then NegInf else PosInf)"

fun js_isneg :: "jsnum \<Rightarrow> bool" where
  "js_isneg NegInf = True"
| "js_isneg (Fin x) = (x < 0)"
| "js_isneg _ = False"

fun js_neg :: "jsnum \<Rightarrow> jsnum" where
  "js_neg NaN = NaN"
| "js_neg NegInf = PosInf"
| "js_neg (Fin x) = Fin (- x)"
| "js_neg PosInf = NegInf"

text \<open>\<open>a + b\<close>\<close>

fun js_add :: "jsnum \<Rightarrow> jsnum \<Rightarrow> jsnum" where
  "js_add (Fin a) (Fin b) = Fin (a + b)"
| "js_add NaN _ = NaN"
| "js_add _ NaN = NaN"
| "js_add PosInf NegInf = NaN"
| "js_add NegInf PosInf = NaN"
| "js_add PosInf _ = PosInf"
| "js_add _ PosInf = PosInf"
| "js_add NegInf _ = NegInf"
| "js_add _ NegInf = NegInf"

text \<open>\<open>a - b\<close>\<close>

definition js_sub :: "jsnum \<Rightarrow> jsnum \<Rightarrow> jsnum" where
  "js_sub a b = js_add a (js_neg b)"

text \<open>\<open>a * b\<close>: zero times an infinity is NaN.\<close>

fun js_mul :: "jsnum \<Rightarrow> jsnum \<Rightarrow> jsnum" where
  "js_mul NaN _ = NaN"
| "js_mul _ NaN = NaN"
| "js_mul (Fin a) (Fin b) = Fin (a * b)"
| "js_mul (Fin a) y = (if a = 0 then NaN else jsinf ((a < 0) \<noteq> js_isneg y))"
| "js_mul x (Fin b) = (if b = 0 then NaN else jsinf (js_isneg x \<noteq> (b < 0)))"
| "js_mul x y = jsinf (js_isneg x \<noteq> js_isneg y)"

text \<open>\<open>a / b\<close>: never raises; a finite non-zero value over zero is an infinity.\<close>

fun js_div :: "jsnum \<Rightarrow> jsnum \<Rightarrow> jsnum" where
  "js_div NaN _ = NaN"
| "js_div _ NaN = NaN"
| "js_div (Fin a) (Fin b) =
     (if b = 0 then (if a = 0 then NaN else jsinf (a < 0)) else Fin (a / b))"
| "js_div (Fin a) y = Fin 0"
| "js_div x (Fin b) = jsinf (js_isneg x \<noteq> (b < 0))"
| "js_div x y = NaN"

text \<open>\<open>a < b\<close>: false as soon as one side is NaN.\<close>

fun js_lt :: "jsnum \<Rightarrow> jsnum \<Rightarrow> bool" where
  "js_lt NaN _ = False"
| "js_lt _ NaN = False"
| "js_lt (Fin a) (Fin b) = (a < b)"
| "js_lt _ NegInf = False"
| "js_lt PosInf _ = False"
| "js_lt NegInf _ = True"
| "js_lt _ PosInf = True"

text \<open>\<open>Math.round\<close> rounds to the nearest integer, halves towards plus infinity.\<close>

fun Math_round :: "jsnum \<Rightarrow> jsnum" where
  "Math_round (Fin x) = Fin (of_int \<lfloor>x + 1 / 2\<rfloor>)"
| "Math_round x = x"

fun Math_acos :: "jsnum \<Rightarrow> jsnum" where
  "Math_acos (Fin x) = (if - 1 \<le> x \<and> x \<le> 1 then Fin (arccos x) else NaN)"
| "Math_acos _ = NaN"

fun Math_sqrt :: "jsnum \<Rightarrow> jsnum" where
  "Math_sqrt (Fin x) = (if 0 \<le> x then Fin (sqrt x) else NaN)"
| "Math_sqrt PosInf = PosInf"
| "Math_sqrt _ = NaN"

fun Math_cos :: "jsnum \<Rightarrow> jsnum" where
  "Math_cos (Fin x) = Fin (cos x)"
| "Math_cos _ = NaN"

fun Math_sin :: "jsnum \<Rightarrow> jsnum" where
  "Math_sin (Fin x) = Fin (sin x)"
| "Math_sin _ = NaN"

definition Math_PI :: jsnum where
  "Math_PI = Fin pi"

section \<open>Nucleus: particle placement\<close>

type_synonym vec3 = "jsnum \<times> jsnum \<times> jsnum"

record particle =
  pos :: vec3
  isProton :: bool

text \<open>The body of the placement loop at index \<open>i\<close>: the object pushed onto \<open>pts\<close>.\<close>

definition Nucleus_particle :: "jsnum \<Rightarrow> jsnum \<Rightarrow> nat \<Rightarrow> particle" where
  "Nucleus_particle protons total' i =
     (let phi = Math_acos (js_add (Fin (- 1)) (js_div (js_mul (Fin 2) (Fin (real i))) total'));
          theta = js_mul (Math_sqrt (js_mul total' Math_PI)) phi;
          r = Fin (3 / 10)
      in \<lparr> pos = (js_mul (js_mul r (Math_cos theta)) (Math_sin phi),
                  js_mul (js_mul r (Math_sin theta)) (Math_sin phi),
                  js_mul r (Math_cos phi)),
           isProton = js_lt (Fin (real i)) protons \<rparr>)"

text \<open>
  \<open>for (let i = 0; i < total; i++) pts.push(...)\<close>. The loop does not end when \<open>total\<close>
  is plus infinity; not returning is the value \<open>None\<close>.
\<close>

partial_function (option) Nucleus_loop ::
  "jsnum \<Rightarrow> jsnum \<Rightarrow> nat \<Rightarrow> particle list \<Rightarrow> particle list option" where
  "Nucleus_loop protons total' i pts =
     (if js_lt (Fin (real i)) total'
      then Nucleus_loop protons total' (Suc i) (pts @ [Nucleus_particle protons total' i])
      else Some pts)"

text \<open>
  The memoised \<open>particles\<close> of \<open>Nucleus\<close>. The memo depends on \<open>protons\<close> and \<open>neutrons\<close>,
  the only inputs of the computation, so the memoised value is the computed one.
\<close>

definition Nucleus_particles :: "jsnum \<Rightarrow> jsnum \<Rightarrow> particle list option" where
  "Nucleus_particles protons neutrons =
     (let total' = js_add protons neutrons in Nucleus_loop protons total' 0 [])"

definition on_sphere :: "real \<Rightarrow> vec3 \<Rightarrow> bool" where
  "on_sphere r p =
     (case p of (Fin x, Fin y, Fin z) \<Rightarrow> x\<^sup>2 + y\<^sup>2 + z\<^sup>2 = r\<^sup>2 | _ \<Rightarrow> False)"

section \<open>JavaScript strings\<close>

text \<open>
  A JavaScript string is a sequence of UTF-16 code units, here natural numbers; a code
  unit is below 65536. \<open>js\<close> gives the code units of an ASCII literal.
\<close>

type_synonym jsstring = "nat list"

definition js :: "string \<Rightarrow> jsstring" where
  "js s = map of_char s"

text \<open>\<open>s.includes(t)\<close>: \<open>t\<close> occurs in \<open>s\<close> at some index, compared code unit by code unit.\<close>

fun String_includes :: "jsstring \<Rightarrow> jsstring \<Rightarrow> bool" where
  "String_includes [] t = (t = [])"
| "String_includes (c # s) t = (prefix t (c # s) \<or> String_includes s t)"

text \<open>
  \<open>s.toLowerCase()\<close>. On a string of Basic Latin, Latin-1 Supplement and Hebrew code units
  the result is known in full: a capital letter of the first two blocks becomes its small
  letter, 32 further on, and every other code unit stays as it is. On a string with a
  code unit outside these blocks the result is what the case tables of Unicode give. The
  tables are not written out: \<open>ucd\<close> stands for the function they define, and is a
  parameter of everything that lower-cases a string.
\<close>

definition modelled_unit :: "nat \<Rightarrow> bool" where
  "modelled_unit c \<longleftrightarrow> c < 256 \<or> (1424 \<le> c \<and> c \<le> 1535)"

definition toLowerCase_unit :: "nat \<Rightarrow> nat" where
  "toLowerCase_unit c =
     (if (65 \<le> c \<and> c \<le> 90) \<or> (192 \<le> c \<and> c \<le> 222 \<and> c \<noteq> 215) then c + 32 else c)"

definition toLowerCase :: "(jsstring \<Rightarrow> jsstring) \<Rightarrow> jsstring \<Rightarrow> jsstring" where
  "toLowerCase ucd s = (if list_all modelled_unit s then map toLowerCase_unit s else ucd s)"




text \<open>
  \<open>n.toString()\<close> of a non-negative integer: its decimal digits (JavaScript writes
  integers from \<open>10\<^sup>2\<^sup>1\<close> on with an exponent; they are outside the model).
\<close>

fun Number_toString :: "nat \<Rightarrow> jsstring" where
  "Number_toString n =
     (if n < 10 then [48 + n] else Number_toString (n div 10) @ [48 + n mod 10])"

declare Number_toString.simps [simp del]

subsection \<open>parseFloat\<close>

definition StrWhiteSpaceChar :: "nat \<Rightarrow> bool" where
  "StrWhiteSpaceChar c \<longleftrightarrow>
     c \<in> {9, 10, 11, 12, 13, 32, 160, 5760, 8232, 8233, 8239, 8287, 12288, 65279}
     \<or> (8192 \<le> c \<and> c \<le> 8202)"

definition isDigit :: "nat \<Rightarrow> bool" where
  "isDigit c \<longleftrightarrow> 48 \<le> c \<and> c \<le> 57"

definition DecimalDigits_value :: "jsstring \<Rightarrow> nat" where
  "DecimalDigits_value ds = foldl (\<lambda>a c. 10 * a + (c - 48)) 0 ds"

text \<open>An optional sign: whether it is a minus, and the rest of the string.\<close>

fun strip_sign :: "jsstring \<Rightarrow> bool \<times> jsstring" where
  "strip_sign [] = (False, [])"
| "strip_sign (c # r) =
     (if c = 45 then (True, r) else if c = 43 then (False, r) else (False, c # r))"

text \<open>
  The exponent part at the head of a string: \<open>e\<close> or \<open>E\<close>, an optional sign and at
  least one digit. Anything else is no exponent part, and the exponent is 0.
\<close>

fun ExponentPart :: "jsstring \<Rightarrow> int" where
  "ExponentPart [] = 0"
| "ExponentPart (c # r) =
     (if c = 101 \<or> c = 69
      then (let (neg, u) = strip_sign r; ds = takeWhile isDigit u
            in if ds = [] then 0
               else if neg then - int (DecimalDigits_value ds) else int (DecimalDigits_value ds))
      else 0)"

text \<open>The digits after a decimal point at the head of a string, and what follows them.\<close>

fun fraction_part :: "jsstring \<Rightarrow> jsstring \<times> jsstring" where
  "fraction_part [] = ([], [])"
| "fraction_part (c # r) =
     (if c = 46 then (takeWhile isDigit r, dropWhile isDigit r) else ([], c # r))"

text \<open>
  \<open>parseFloat(s)\<close>: leading white space is skipped, then the longest prefix that is a
  decimal literal is read; the rest is ignored. Without such a prefix the result is NaN.
\<close>

definition parseFloat :: "jsstring \<Rightarrow> jsnum" where
  "parseFloat s =
     (let (neg, u) = strip_sign (dropWhile StrWhiteSpaceChar s)
      in if prefix (js ''Infinity'') u then jsinf neg
         else (let ip = takeWhile isDigit u;
                   (fp, r) = fraction_part (dropWhile isDigit u)
               in if ip = [] \<and> fp = [] then NaN
                  else (let m = real (DecimalDigits_value (ip @ fp)) / 10 ^ length fp;
                            ex = ExponentPart r;
                            v = (if 0 \<le> ex then m * 10 ^ nat ex else m / 10 ^ nat (- ex))
                        in Fin (if neg then - v else v))))"

section \<open>The element records\<close>

text \<open>
  Modelled from the spec: the \<open>ElementData\<close> interface and the \<open>elements\<close> table are
  declared in \<open>./data/elements\<close>, which is not among the sources. The spec gives the
  fields: \<open>number\<close> a positive integer, \<open>shells\<close> a sequence of positive integers,
  \<open>atomicMass\<close> decimal-valued text, the grid coordinates \<open>x\<close> and \<open>y\<close> (here \<open>grid_x\<close>
  and \<open>grid_y\<close>), and text for the rest. The table is a parameter of what reads it.
\<close>

record ElementData =
  number :: nat
  symbol :: jsstring
  name :: jsstring
  hebrewName :: jsstring
  hebrewSummary :: jsstring
  category :: jsstring
  atomicMass :: jsstring
  phase :: jsstring
  shells :: "nat list"
  grid_x :: nat
  grid_y :: nat

section \<open>Electron: the per-frame update\<close>

record Electron_props =
  radius :: jsnum
  speed :: jsnum
  offset :: jsnum
  color :: jsstring
  isPaused :: bool

text \<open>
  The \<open>useFrame\<close> callback of \<open>Electron\<close>. \<open>ref\<close> is \<open>ref.current\<close>: \<open>None\<close> while the
  group is not mounted, otherwise the position of the group. \<open>elapsed\<close> is
  \<open>state.clock.getElapsedTime()\<close>.
\<close>

definition Electron_useFrame :: "Electron_props \<Rightarrow> jsnum \<Rightarrow> vec3 option \<Rightarrow> vec3 option" where
  "Electron_useFrame props elapsed ref =
     (case ref of
        None \<Rightarrow> None
      | Some (px, py, pz) \<Rightarrow>
          if \<not> isPaused props
          then (let t = js_add (js_mul elapsed (speed props)) (offset props);
                    px' = js_mul (Math_cos t) (radius props);
                    pz' = js_mul (Math_sin t) (radius props);
                    py' = js_mul (Math_sin (js_mul t (Fin (1 / 2))))
                                 (js_mul (radius props) (Fin (2 / 10)))
                in Some (px', py', pz'))
          else Some (px, py, pz))"

section \<open>AtomModel: nucleus and shells\<close>

text \<open>
  \<open>Math.random()\<close> reads the next value of a sequence of reals in \<open>[0, 1)\<close>; the
  generator is the part of the sequence not yet read.
\<close>

type_synonym rng = "nat \<Rightarrow> real"

definition Math_random :: "rng \<Rightarrow> jsnum \<times> rng" where
  "Math_random g = (Fin (g 0), \<lambda>k. g (Suc k))"

record Shell_view =
  orbit_radius :: jsnum
  orbit_rotation :: vec3
  electrons :: "Electron_props list"

text \<open>
  The callback of \<open>element.shells.map\<close> at one shell: the orbit and the electrons
  \<open>Array.from({ length: count })\<close> gives, one for each \<open>eIndex\<close> below \<open>count\<close>.
\<close>

definition AtomModel_shell :: "bool \<Rightarrow> nat \<Rightarrow> nat \<Rightarrow> rng \<Rightarrow> Shell_view \<times> rng" where
  "AtomModel_shell paused count shellIndex g =
     (let r = js_mul (js_add (Fin (real shellIndex)) (Fin 1)) (Fin (12 / 10));
          (a, g1) = Math_random g;
          (b, g2) = Math_random g1;
          (c, g3) = Math_random g2;
          rotation = (js_mul a Math_PI, js_mul b Math_PI, js_mul c Math_PI)
      in (\<lparr> orbit_radius = r,
             orbit_rotation = rotation,
             electrons = map (\<lambda>eIndex.
               \<lparr> radius = r,
                 speed = js_mul (js_div (Fin 1) (js_add (Fin (real shellIndex)) (Fin 1))) (Fin 2),
                 offset = js_mul (js_mul (js_div (Fin (real eIndex)) (Fin (real count))) Math_PI)
                                 (Fin 2),
                 color = js ''#ffff00'',
                 isPaused = paused \<rparr>) [0..<count] \<rparr>, g3))"

text \<open>\<open>element.shells.map\<close>, from \<open>shellIndex\<close> on, in the order of the array.\<close>

fun AtomModel_shells :: "bool \<Rightarrow> nat \<Rightarrow> nat list \<Rightarrow> rng \<Rightarrow> Shell_view list \<times> rng" where
  "AtomModel_shells paused shellIndex [] g = ([], g)"
| "AtomModel_shells paused shellIndex (count # counts) g =
     (let (sv, g1) = AtomModel_shell paused count shellIndex g;
          (svs, g2) = AtomModel_shells paused (Suc shellIndex) counts g1
      in (sv # svs, g2))"

record Atom_view =
  nucleus :: "particle list"
  shell_views :: "Shell_view list"

text \<open>
  One render of \<open>AtomModel\<close> and of the \<open>Nucleus\<close> below it. The render does not return
  when the placement loop does not.
\<close>

definition AtomModel :: "ElementData \<Rightarrow> bool \<Rightarrow> rng \<Rightarrow> (Atom_view \<times> rng) option" where
  "AtomModel element paused g =
     (let protons = Fin (real (number element));
          neutrons = js_sub (Math_round (parseFloat (atomicMass element))) protons;
          (svs, g') = AtomModel_shells paused 0 (shells element) g
      in case Nucleus_particles protons neutrons of
           None \<Rightarrow> None
         | Some pts \<Rightarrow> Some (\<lparr> nucleus = pts, shell_views = svs \<rparr>, g'))"

section \<open>App: view state, search filter and rendering\<close>

text \<open>The callback of \<open>elements.filter\<close> in \<open>filteredElements\<close>.\<close>

definition filteredElements_callback ::
  "(jsstring \<Rightarrow> jsstring) \<Rightarrow> jsstring \<Rightarrow> ElementData \<Rightarrow> bool" where
  "filteredElements_callback ucd term e \<longleftrightarrow>
     String_includes (hebrewName e) term
     \<or> String_includes (toLowerCase ucd (name e)) (toLowerCase ucd term)
     \<or> String_includes (toLowerCase ucd (symbol e)) (toLowerCase ucd term)
     \<or> String_includes (Number_toString (number e)) term"

definition filteredElements_compute ::
  "(jsstring \<Rightarrow> jsstring) \<Rightarrow> ElementData list \<Rightarrow> jsstring \<Rightarrow> ElementData list" where
  "filteredElements_compute ucd elements term =
     filter (filteredElements_callback ucd term) elements"

text \<open>
  \<open>useMemo(() => f(deps), [deps])\<close> with its memo cell: the cell is empty before the first
  render; afterwards it holds the dependencies and the value of the last computation, and
  the value is computed again when the dependencies differ from the stored ones.
\<close>

definition useMemo ::
  "('d \<Rightarrow> 'v) \<Rightarrow> 'd \<Rightarrow> ('d \<times> 'v) option \<Rightarrow> 'v \<times> ('d \<times> 'v) option" where
  "useMemo f deps cell =
     (case cell of
        None \<Rightarrow> (f deps, Some (deps, f deps))
      | Some (d, v) \<Rightarrow> if d = deps then (v, Some (d, v)) else (f deps, Some (deps, f deps)))"

datatype view_mode = Mode_3d | Mode_2d

datatype background_key = Space | Dark | Gradient | Minimal

text \<open>The state hooks of \<open>App\<close>; \<open>app_isPaused\<close> is the hook \<open>isPaused\<close>.\<close>

record View_state =
  selectedElement :: ElementData
  searchTerm :: jsstring
  viewMode :: view_mode
  showInfo :: bool
  showList :: bool
  background :: background_key
  app_isPaused :: bool

text \<open>
  What is on screen after a render of \<open>App\<close>: the hooks, the memo cell and the value of
  \<open>filteredElements\<close>, the atom drawn on the canvas (none in the 2D view), \<open>ref.current\<close>
  of every mounted \<open>Electron\<close> by shell and index, and the random generator.
\<close>

record App_state =
  view :: View_state
  filteredElements_memo :: "(jsstring \<times> ElementData list) option"
  filteredElements :: "ElementData list"
  atom :: "Atom_view option"
  refs :: "vec3 option list list"
  generator :: rng

datatype exception = TypeError

datatype 'a result = Returns 'a | Raises exception | Diverges

text \<open>
  An \<open>Electron\<close> is keyed by its index inside a group keyed by the shell index. A render
  keeps the group of an electron whose keys were mounted before, with the position it
  has, and mounts a new group, at the origin, for the others.
\<close>

definition mount_refs :: "vec3 option list list \<Rightarrow> Shell_view list \<Rightarrow> vec3 option list list" where
  "mount_refs old svs =
     map (\<lambda>s. map (\<lambda>e. if s < length old \<and> e < length (old ! s) then old ! s ! e
                        else Some (Fin 0, Fin 0, Fin 0))
                 [0..<length (electrons (svs ! s))])
         [0..<length svs]"

text \<open>
  One render of \<open>App\<close> with the hooks \<open>v\<close>. \<open>AtomModel\<close> is rendered, inside the canvas,
  in the 3D view only; leaving the 3D view unmounts the canvas and its electrons.
\<close>

definition App_render ::
  "(jsstring \<Rightarrow> jsstring) \<Rightarrow> ElementData list \<Rightarrow> View_state \<Rightarrow> (jsstring \<times> ElementData list) option \<Rightarrow>
   vec3 option list list \<Rightarrow> rng \<Rightarrow> App_state result" where
  "App_render ucd elements v cell old g =
     (let (fe, cell') = useMemo (filteredElements_compute ucd elements) (searchTerm v) cell
      in case viewMode v of
           Mode_2d \<Rightarrow>
             Returns \<lparr> view = v, filteredElements_memo = cell', filteredElements = fe,
                       atom = None, refs = [], generator = g \<rparr>
         | Mode_3d \<Rightarrow>
             (case AtomModel (selectedElement v) (app_isPaused v) g of
                None \<Rightarrow> Diverges
              | Some (av, g') \<Rightarrow>
                  Returns \<lparr> view = v, filteredElements_memo = cell', filteredElements = fe,
                            atom = Some av, refs = mount_refs old (shell_views av),
                            generator = g' \<rparr>))"

text \<open>
  The first render. \<open>useState(elements[0])\<close> is \<open>undefined\<close> on an empty table, and the
  render then raises on reading a field of it.
\<close>

definition App_mount :: "(jsstring \<Rightarrow> jsstring) \<Rightarrow> ElementData list \<Rightarrow> rng \<Rightarrow> App_state result" where
  "App_mount ucd elements g =
     (case elements of
        [] \<Rightarrow> Raises TypeError
      | e0 # _ \<Rightarrow>
          App_render ucd elements
            \<lparr> selectedElement = e0, searchTerm = [], viewMode = Mode_3d, showInfo = True,
              showList = True, background = Space, app_isPaused = False \<rparr>
            None [] g)"

text \<open>The handlers of \<open>App\<close>, and a frame of the render loop at a given elapsed time.\<close>

datatype event =
    SetSelectedElement ElementData
  | SetSearchTerm jsstring
  | SetViewMode view_mode
  | SetShowInfo bool
  | SetShowList bool
  | SetBackground background_key
  | TogglePause
  | ToggleFullInteractive
  | ResetLayout
  | Frame jsnum

fun App_handler :: "event \<Rightarrow> View_state \<Rightarrow> View_state" where
  "App_handler (SetSelectedElement e) v = v\<lparr>selectedElement := e\<rparr>"
| "App_handler (SetSearchTerm s) v = v\<lparr>searchTerm := s\<rparr>"
| "App_handler (SetViewMode m) v = v\<lparr>viewMode := m\<rparr>"
| "App_handler (SetShowInfo b) v = v\<lparr>showInfo := b\<rparr>"
| "App_handler (SetShowList b) v = v\<lparr>showList := b\<rparr>"
| "App_handler (SetBackground k) v = v\<lparr>background := k\<rparr>"
| "App_handler TogglePause v = v\<lparr>app_isPaused := \<not> app_isPaused v\<rparr>"
| "App_handler ToggleFullInteractive v = v\<lparr>showInfo := False, showList := False\<rparr>"
| "App_handler ResetLayout v = v\<lparr>showInfo := True, showList := True\<rparr>"
| "App_handler (Frame t) v = v"

text \<open>
  A frame runs the \<open>useFrame\<close> callback of every mounted electron; it renders nothing.
\<close>

definition App_frame :: "jsnum \<Rightarrow> App_state \<Rightarrow> App_state" where
  "App_frame t s =
     (case atom s of
        None \<Rightarrow> s
      | Some av \<Rightarrow>
          s\<lparr>refs := map (\<lambda>(sv, rs). map (\<lambda>(props, r). Electron_useFrame props t r)
                                        (zip (electrons sv) rs))
                        (zip (shell_views av) (refs s))\<rparr>)"

text \<open>
  One event. A handler that leaves every hook as it was renders nothing; otherwise \<open>App\<close>
  is rendered again, and with it \<open>AtomModel\<close>, which is not memoised. Equality of element
  records stands for the identity of the objects of the table.
\<close>

definition App_step :: "(jsstring \<Rightarrow> jsstring) \<Rightarrow> ElementData list \<Rightarrow> event \<Rightarrow> App_state \<Rightarrow> App_state result" where
  "App_step ucd elements ev s =
     (case ev of
        Frame t \<Rightarrow> Returns (App_frame t s)
      | _ \<Rightarrow>
          (let v' = App_handler ev (view s)
           in if v' = view s then Returns s
              else App_render ucd elements v' (filteredElements_memo s) (refs s) (generator s)))"

fun App_run :: "(jsstring \<Rightarrow> jsstring) \<Rightarrow> ElementData list \<Rightarrow> event list \<Rightarrow> App_state \<Rightarrow> App_state result" where
  "App_run ucd elements [] s = Returns s"
| "App_run ucd elements (ev # evs) s =
     (case App_step ucd elements ev s of
        Returns s' \<Rightarrow> App_run ucd elements evs s'
      | Raises x \<Rightarrow> Raises x
      | Diverges \<Rightarrow> Diverges)"

definition App_session :: "(jsstring \<Rightarrow> jsstring) \<Rightarrow> ElementData list \<Rightarrow> rng \<Rightarrow> event list \<Rightarrow> App_state result" where
  "App_session ucd elements g evs =
     (case App_mount ucd elements g of
        Returns s \<Rightarrow> App_run ucd elements evs s
      | Raises x \<Rightarrow> Raises x
      | Diverges \<Rightarrow> Diverges)"

text \<open>
  What every render establishes and every frame keeps: the memo cell holds the filter of
  the current search term, which is the value of \<open>filteredElements\<close>; an atom is on screen
  exactly in the 3D view; every electron of it has a mounted group and carries the pause
  flag of \<open>App\<close>.
\<close>

definition App_invariant :: "(jsstring \<Rightarrow> jsstring) \<Rightarrow> ElementData list \<Rightarrow> App_state \<Rightarrow> bool" where
  "App_invariant ucd elements s \<longleftrightarrow>
     filteredElements_memo s = Some (searchTerm (view s), filteredElements s)
     \<and> filteredElements s = filteredElements_compute ucd elements (searchTerm (view s))
     \<and> (case atom s of
          None \<Rightarrow> viewMode (view s) = Mode_2d \<and> refs s = []
        | Some av \<Rightarrow>
            viewMode (view s) = Mode_3d
            \<and> length (refs s) = length (shell_views av)
            \<and> (\<forall>i < length (shell_views av).
                  length (refs s ! i) = length (electrons (shell_views av ! i))
                  \<and> (\<forall>props \<in> set (electrons (shell_views av ! i)).
                        isPaused props = app_isPaused (view s))))"

section \<open>Example records\<close>

text \<open>
  Records in the shape of the table's, for evaluating the definitions: hydrogen, lithium,
  aluminium and zinc with their Hebrew names, then hydrogen with a mass text that is not
  a number, hydrogen with a negative mass text, and a record whose Hebrew name is the
  Latin capital \<open>H\<close>.
\<close>

definition example_element ::
  "nat \<Rightarrow> jsstring \<Rightarrow> jsstring \<Rightarrow> jsstring \<Rightarrow> jsstring \<Rightarrow> nat list \<Rightarrow> ElementData" where
  "example_element n sy nm heb mass sh =
     \<lparr> number = n, symbol = sy, name = nm, hebrewName = heb, hebrewSummary = [],
       category = [], atomicMass = mass, phase = js ''Solid'', shells = sh,
       grid_x = 1, grid_y = 1 \<rparr>"

definition hydrogen :: ElementData where
  "hydrogen = example_element 1 (js ''H'') (js ''Hydrogen'') [1502, 1497, 1502, 1503]
                (js ''1.008'') [1]"

definition lithium :: ElementData where
  "lithium = example_element 3 (js ''Li'') (js ''Lithium'') [1500, 1497, 1514, 1497, 1493, 1501]
               (js ''6.94'') [2, 1]"


definition zinc :: ElementData where
  "zinc = example_element 30 (js ''Zn'') (js ''Zinc'') [1488, 1489, 1509] (js ''65.38'')
            [2, 8, 18, 2]"

definition hydrogen_unknown_mass :: ElementData where
  "hydrogen_unknown_mass = hydrogen\<lparr>atomicMass := js ''unknown''\<rparr>"

definition hydrogen_negative_mass :: ElementData where
  "hydrogen_negative_mass = hydrogen\<lparr>atomicMass := js ''-5''\<rparr>"

definition latin_hebrewName :: ElementData where
  "latin_hebrewName = example_element 54 (js ''Xe'') (js ''Xenon'') (js ''H'') (js ''131.29'')
                        [2, 8, 18, 18, 8]"

text \<open>
  The strings of the example records and the search terms tried on them stay inside the
  modelled blocks, where the case tables are not consulted; the identity stands for them.
\<close>

definition example_ucd :: "jsstring \<Rightarrow> jsstring" where
  "example_ucd s = s"

text \<open>A generator whose values \<open>1/2, 1/3, 1/4, \<dots>\<close> are all different.\<close>

definition example_generator :: rng where
  "example_generator = (\<lambda>k. 1 / (real k + 2))"

text \<open>The tilts of the orbits on screen, shell by shell.\<close>

definition rendered_tilts :: "App_state result \<Rightarrow> vec3 list option" where
  "rendered_tilts r =
     (case r of
        Returns s \<Rightarrow> map_option (\<lambda>av. map orbit_rotation (shell_views av)) (atom s)
      | _ \<Rightarrow> None)"

text \<open>Lithium with a mass text that rounds to less than its atomic number.\<close>

definition lithium_light_mass :: ElementData where
  "lithium_light_mass = lithium\<lparr>atomicMass := js ''2.2''\<rparr>"

text \<open>The element selected after a run of the application.\<close>

definition rendered_selection :: "App_state result \<Rightarrow> ElementData option" where
  "rendered_selection r =
     (case r of Returns s \<Rightarrow> Some (selectedElement (view s)) | _ \<Rightarrow> None)"

section \<open>Properties of the placement loop\<close>

lemma Nucleus_loop_stop:
  "\<not> js_lt (Fin (real i)) total' \<Longrightarrow> Nucleus_loop protons total' i pts = Some pts"
  by (subst Nucleus_loop.simps) simp

lemma real_less_iff_nat_ceiling: "real i < t \<longleftrightarrow> i < nat \<lceil>t\<rceil>"
  by (simp add: zless_nat_eq_int_zless less_ceiling_iff)

lemma Nucleus_loop_finite:
  "Nucleus_loop protons (Fin t) i pts =
     Some (pts @ map (Nucleus_particle protons (Fin t)) [i..<nat \<lceil>t\<rceil>])"
proof (induction "nat \<lceil>t\<rceil> - i" arbitrary: i pts)
  case 0
  then have "\<not> i < nat \<lceil>t\<rceil>" by linarith
  then have "\<not> real i < t"
    by (simp only: real_less_iff_nat_ceiling not_False_eq_True)
  with 0 show ?case
    by (simp add: Nucleus_loop_stop)
next
  case (Suc k)
  then have lt: "i < nat \<lceil>t\<rceil>" by linarith
  then have "real i < t"
    by (simp add: real_less_iff_nat_ceiling)
  moreover from Suc have "k = nat \<lceil>t\<rceil> - Suc i" by linarith
  ultimately show ?case
    using Suc.hyps(1)[of "Suc i"] lt
    by (subst Nucleus_loop.simps) (simp add: upt_conv_Cons)
qed

lemma Nucleus_particles_finite:
  "js_add protons neutrons = Fin t \<Longrightarrow>
   Nucleus_particles protons neutrons =
     Some (map (Nucleus_particle protons (Fin t)) [0..<nat \<lceil>t\<rceil>])"
  by (simp add: Nucleus_particles_def Nucleus_loop_finite)

text \<open>Inside the loop the argument of \<open>Math.acos\<close> lies in the domain of the arc cosine.\<close>

lemma acos_argument_in_range:
  assumes "real i < t"
  shows "- 1 \<le> - 1 + 2 * real i / t" and "- 1 + 2 * real i / t \<le> 1"
proof -
  from assms have t: "0 < t"
    by (meson of_nat_0_le_iff le_less_trans)
  then show "- 1 \<le> - 1 + 2 * real i / t" by simp
  from assms t have "2 * real i / t \<le> 2"
    by (simp add: divide_le_eq)
  then show "- 1 + 2 * real i / t \<le> 1" by simp
qed

lemma Nucleus_particle_finite:
  assumes "real i < t"
  shows "Nucleus_particle protons (Fin t) i =
    \<lparr> pos = (Fin (3 / 10 * cos (sqrt (t * pi) * arccos (- 1 + 2 * real i / t))
                  * sin (arccos (- 1 + 2 * real i / t))),
              Fin (3 / 10 * sin (sqrt (t * pi) * arccos (- 1 + 2 * real i / t))
                  * sin (arccos (- 1 + 2 * real i / t))),
              Fin (3 / 10 * cos (arccos (- 1 + 2 * real i / t)))),
       isProton = js_lt (Fin (real i)) protons \<rparr>"
proof -
  from assms have t: "0 < t"
    by (meson of_nat_0_le_iff le_less_trans)
  then have "0 \<le> t * pi" by simp
  with t acos_argument_in_range[OF assms] show ?thesis
    by (simp add: Nucleus_particle_def Math_PI_def Let_def)
qed

lemma sphere_parametrization:
  "(r * cos th * sin ph)\<^sup>2 + (r * sin th * sin ph)\<^sup>2 + (r * cos ph)\<^sup>2 = (r::real)\<^sup>2"
  by (simp add: cos_squared_eq algebra_simps)

text \<open>
  C1. For non-negative integers \<open>protons\<close> and \<open>neutrons\<close> with
  \<open>total = protons + neutrons > 0\<close>, the placement returns exactly \<open>total\<close> particles;
  particle \<open>i\<close> sits at the Fibonacci-sphere position given by
  \<open>phi = acos(-1 + 2i/total)\<close>, \<open>theta = sqrt(total * pi) * phi\<close> and radius \<open>0.3\<close>, which
  lies on the sphere of radius \<open>0.3\<close> (exactly so over the reals), and it is flagged as a
  proton if and only if \<open>i < protons\<close>.
\<close>

theorem Nucleus_fibonacci_sphere:
  assumes "0 < p + n"
  shows "\<exists>pts. Nucleus_particles (Fin (real p)) (Fin (real n)) = Some pts
           \<and> length pts = p + n
           \<and> (\<forall>i < p + n.
                 (let phi = arccos (- 1 + 2 * real i / real (p + n));
                      theta = sqrt (real (p + n) * pi) * phi
                  in pos (pts ! i) = (Fin (3 / 10 * cos theta * sin phi),
                                      Fin (3 / 10 * sin theta * sin phi),
                                      Fin (3 / 10 * cos phi)))
                 \<and> on_sphere (3 / 10) (pos (pts ! i))
                 \<and> (isProton (pts ! i) \<longleftrightarrow> i < p))"
proof -
  let ?t = "real (p + n)"
  let ?pts = "map (Nucleus_particle (Fin (real p)) (Fin ?t)) [0..<p + n]"
  have "js_add (Fin (real p)) (Fin (real n)) = Fin ?t" by simp
  then have run: "Nucleus_particles (Fin (real p)) (Fin (real n)) = Some ?pts"
    by (simp add: Nucleus_particles_finite del: js_add.simps of_nat_add)
  have each: "(let phi = arccos (- 1 + 2 * real i / ?t);
                   theta = sqrt (?t * pi) * phi
               in pos (?pts ! i) = (Fin (3 / 10 * cos theta * sin phi),
                                    Fin (3 / 10 * sin theta * sin phi),
                                    Fin (3 / 10 * cos phi)))
              \<and> on_sphere (3 / 10) (pos (?pts ! i))
              \<and> (isProton (?pts ! i) \<longleftrightarrow> i < p)" if "i < p + n" for i
  proof -
    from that have lt: "real i < ?t" by (simp only: of_nat_less_iff)
    from that have nth: "?pts ! i = Nucleus_particle (Fin (real p)) (Fin ?t) i"
      by (simp del: of_nat_add)
    note eq = Nucleus_particle_finite[OF lt, of "Fin (real p)"]
    have P: "pos (?pts ! i) =
               (Fin (3 / 10 * cos (sqrt (?t * pi) * arccos (- 1 + 2 * real i / ?t))
                   * sin (arccos (- 1 + 2 * real i / ?t))),
                Fin (3 / 10 * sin (sqrt (?t * pi) * arccos (- 1 + 2 * real i / ?t))
                   * sin (arccos (- 1 + 2 * real i / ?t))),
                Fin (3 / 10 * cos (arccos (- 1 + 2 * real i / ?t))))"
      by (simp only: nth eq particle.select_convs)
    have S: "on_sphere (3 / 10) (pos (?pts ! i))"
      by (simp only: P on_sphere_def prod.case jsnum.case sphere_parametrization)
    have F: "isProton (?pts ! i) \<longleftrightarrow> i < p"
      by (simp only: nth eq particle.select_convs js_lt.simps of_nat_less_iff)
    from P S F show ?thesis
      by (simp only: Let_def simp_thms)
  qed
  from run each show ?thesis by simp
qed

theorem Nucleus_fibonacci_sphere_witness:
  "\<exists>pts. Nucleus_particles (Fin (real 1)) (Fin (real 1)) = Some pts
     \<and> length pts = 2
     \<and> pos (pts ! 0) = (Fin 0, Fin 0, Fin (- 3 / 10))
     \<and> on_sphere (3 / 10) (pos (pts ! 1))
     \<and> isProton (pts ! 0) \<and> \<not> isProton (pts ! 1)"
  using Nucleus_fibonacci_sphere[of 1 1] by (auto simp: Let_def)

text \<open>
  C2. When \<open>total = protons + neutrons\<close> is zero the placement returns the empty sequence
  and raises nothing. The loop guard \<open>i < total\<close> fails for every index, so the loop body,
  which holds the only division, is never run: nothing is divided by zero.
\<close>

theorem Nucleus_empty:
  assumes "js_add protons neutrons = Fin 0"
  shows "Nucleus_particles protons neutrons = Some []
         \<and> (\<forall>i. \<not> js_lt (Fin (real i)) (js_add protons neutrons))"
  using Nucleus_particles_finite[OF assms] by (simp add: assms)

theorem Nucleus_empty_witness:
  "js_add (Fin 0) (Fin 0) = Fin 0 \<and> Nucleus_particles (Fin 0) (Fin 0) = Some []
   \<and> \<not> js_lt (Fin (real 0)) (js_add (Fin 0) (Fin 0))"
  using Nucleus_empty[of "Fin 0" "Fin 0"] by simp

section \<open>Properties of the shells\<close>

lemma AtomModel_shell_generator:
  "snd (AtomModel_shell paused count shellIndex g) = (\<lambda>k. g (k + 3))"
  by (simp add: AtomModel_shell_def Math_random_def Let_def eval_nat_numeral)

lemma AtomModel_shell_orbit:
  "orbit_radius (fst (AtomModel_shell paused count shellIndex g))
     = Fin ((real shellIndex + 1) * (12 / 10))"
  "orbit_rotation (fst (AtomModel_shell paused count shellIndex g))
     = (Fin (g 0 * pi), Fin (g 1 * pi), Fin (g 2 * pi))"
  "length (electrons (fst (AtomModel_shell paused count shellIndex g))) = count"
  by (simp_all add: AtomModel_shell_def Math_random_def Math_PI_def Let_def eval_nat_numeral)

lemma AtomModel_shell_electron:
  assumes "eIndex < count"
  shows "electrons (fst (AtomModel_shell paused count shellIndex g)) ! eIndex =
           \<lparr> radius = Fin ((real shellIndex + 1) * (12 / 10)),
             speed = Fin (1 / (real shellIndex + 1) * 2),
             offset = Fin (real eIndex / real count * pi * 2),
             color = js ''#ffff00'',
             isPaused = paused \<rparr>"
proof -
  from assms have "real count \<noteq> 0" by simp
  moreover have "real shellIndex + 1 \<noteq> 0"
    by (metis add.commute of_nat_Suc of_nat_neq_0)
  ultimately show ?thesis
    using assms
    by (simp add: AtomModel_shell_def Math_random_def Math_PI_def Let_def)
qed

lemma AtomModel_shells_length:
  "length (fst (AtomModel_shells paused k counts g)) = length counts"
  by (induction counts arbitrary: k g) (simp_all add: Let_def case_prod_beta)

lemma AtomModel_shells_generator:
  "snd (AtomModel_shells paused k counts g) = (\<lambda>n. g (n + 3 * length counts))"
proof (induction counts arbitrary: k g)
  case Nil
  show ?case by simp
next
  case (Cons c cs)
  have "snd (AtomModel_shells paused k (c # cs) g)
          = snd (AtomModel_shells paused (Suc k) cs (snd (AtomModel_shell paused c k g)))"
    by (simp add: Let_def case_prod_beta)
  also have "\<dots> = (\<lambda>n. g (n + 3 * length cs + 3))"
    by (simp only: Cons.IH AtomModel_shell_generator)
  finally show ?case
    by (simp add: add.commute add.left_commute)
qed

lemma AtomModel_shells_nth:
  "s < length counts \<Longrightarrow>
   fst (AtomModel_shells paused k counts g) ! s
     = fst (AtomModel_shell paused (counts ! s) (k + s) (\<lambda>n. g (n + 3 * s)))"
proof (induction counts arbitrary: k g s)
  case Nil
  then show ?case by simp
next
  case (Cons c cs)
  show ?case
  proof (cases s)
    case 0
    then show ?thesis
      by (simp add: Let_def case_prod_beta)
  next
    case (Suc s')
    with Cons.prems have "s' < length cs" by simp
    from Cons.IH[OF this, of "Suc k" "snd (AtomModel_shell paused c k g)"]
    have "fst (AtomModel_shells paused (Suc k) cs (snd (AtomModel_shell paused c k g))) ! s'
            = fst (AtomModel_shell paused (cs ! s') (k + s) (\<lambda>n. g (n + 3 * s' + 3)))"
      by (simp add: AtomModel_shell_generator Suc)
    then show ?thesis
      by (simp add: Suc Let_def case_prod_beta add.commute add.left_commute)
  qed
qed

lemma AtomModel_shell_views:
  assumes "AtomModel element paused g = Some (av, g')"
  shows "shell_views av = fst (AtomModel_shells paused 0 (shells element) g)"
    and "g' = snd (AtomModel_shells paused 0 (shells element) g)"
  using assms
  by (auto simp: AtomModel_def Let_def split: prod.splits option.splits)

text \<open>
  C3. In a rendered atom the shell with 0-based index \<open>s\<close> and \<open>count > 0\<close> electrons has
  the orbit radius \<open>(s + 1) * 1.2\<close> and \<open>count\<close> electrons on that radius with the angular
  speed \<open>2 / (s + 1)\<close>; electron \<open>e\<close> has the phase offset \<open>(e / count) * 2 pi\<close>. The
  offsets start at 0, two neighbours are \<open>2 pi / count\<close> apart and the last one is that far
  below \<open>2 pi\<close>: they cut \<open>[0, 2 pi)\<close> into \<open>count\<close> equal arcs.
\<close>

theorem shell_orbit_and_offsets:
  assumes "AtomModel element paused g = Some (av, g')"
    and "s < length (shells element)" and "count = shells element ! s" and "0 < count"
  shows "length (shell_views av) = length (shells element)
         \<and> orbit_radius (shell_views av ! s) = Fin ((real s + 1) * (12 / 10))
         \<and> length (electrons (shell_views av ! s)) = count
         \<and> (\<forall>e < count.
               radius (electrons (shell_views av ! s) ! e) = Fin ((real s + 1) * (12 / 10))
               \<and> speed (electrons (shell_views av ! s) ! e) = Fin (2 / (real s + 1))
               \<and> offset (electrons (shell_views av ! s) ! e)
                   = Fin (real e / real count * (2 * pi))
               \<and> 0 \<le> real e / real count * (2 * pi)
               \<and> real e / real count * (2 * pi) < 2 * pi
               \<and> real (Suc e) / real count * (2 * pi) - real e / real count * (2 * pi)
                   = 2 * pi / real count)"
proof -
  let ?sh = "fst (AtomModel_shell paused count s (\<lambda>n. g (n + 3 * s)))"
  have sv: "shell_views av ! s = ?sh"
    using AtomModel_shell_views(1)[OF assms(1)] AtomModel_shells_nth[OF assms(2), of paused 0 g]
    by (simp add: assms(3))
  have len: "length (shell_views av) = length (shells element)"
    by (simp add: AtomModel_shell_views(1)[OF assms(1)] AtomModel_shells_length)
  have el: "radius (electrons ?sh ! e) = Fin ((real s + 1) * (12 / 10))
            \<and> speed (electrons ?sh ! e) = Fin (2 / (real s + 1))
            \<and> offset (electrons ?sh ! e) = Fin (real e / real count * (2 * pi))
            \<and> 0 \<le> real e / real count * (2 * pi)
            \<and> real e / real count * (2 * pi) < 2 * pi
            \<and> real (Suc e) / real count * (2 * pi) - real e / real count * (2 * pi)
                = 2 * pi / real count" if "e < count" for e
  proof -
    from that have c: "0 < real count" and lt: "real e < real count" by simp_all
    then have "real e / real count < 1" by simp
    then have "real e / real count * (2 * pi) < 1 * (2 * pi)"
      by (intro mult_strict_right_mono) simp_all
    moreover have "real (Suc e) / real count * (2 * pi) - real e / real count * (2 * pi)
                     = 2 * pi / real count"
      by (simp add: left_diff_distrib[symmetric] diff_divide_distrib[symmetric])
    ultimately show ?thesis
      by (simp add: AtomModel_shell_electron[OF that] mult.assoc)
  qed
  from sv len el show ?thesis
    by (simp add: AtomModel_shell_orbit)
qed

section \<open>Properties of the per-frame update\<close>

lemma js_mul_commute: "js_mul a b = js_mul b a"
  by (cases a; cases b) (auto simp: jsinf_def mult.commute)

lemma js_mul_assoc_pos:
  assumes "0 < c"
  shows "js_mul (js_mul a b) (Fin c) = js_mul a (js_mul b (Fin c))"
  using assms
  by (cases a; cases b)
     (auto simp: jsinf_def mult.assoc mult_less_0_iff zero_less_mult_iff not_less
           dest: order.strict_implies_not_eq)

lemma Electron_useFrame_unpaused:
  "Electron_useFrame
     \<lparr> radius = r, speed = v, offset = off, color = c, isPaused = False \<rparr> elapsed (Some p)
   = (let t = js_add (js_mul elapsed v) off
      in Some (js_mul r (Math_cos t),
               js_mul (js_mul (Math_sin (js_mul t (Fin (5 / 10)))) r) (Fin (2 / 10)),
               js_mul r (Math_sin t)))"
proof -
  have "js_mul (js_mul (Math_sin x) r) (Fin (2 / 10))
          = js_mul (Math_sin x) (js_mul r (Fin (2 / 10)))" for x
    by (rule js_mul_assoc_pos) simp
  then show ?thesis
    by (cases p) (simp add: Electron_useFrame_def Let_def js_mul_commute[of r])
qed

text \<open>
  C4. For every radius, speed, offset and elapsed time, the update of an electron that is
  mounted and not paused sets its position, whatever it was, to
  \<open>(radius * cos t, sin (t * 0.5) * radius * 0.2, radius * sin t)\<close> with
  \<open>t = elapsedTime * speed + offset\<close>, in the cosine and sine of the reals. When one of the
  four numbers is NaN or an infinity, the same three products are taken in the arithmetic
  of JavaScript numbers.
\<close>

theorem Electron_useFrame_position:
  "Electron_useFrame
     \<lparr> radius = Fin r, speed = Fin v, offset = Fin off, color = c, isPaused = False \<rparr>
     (Fin elapsed) (Some p)
   = (let t = elapsed * v + off
      in Some (Fin (r * cos t), Fin (sin (t * (5 / 10)) * r * (2 / 10)), Fin (r * sin t)))
   \<and> Electron_useFrame
       \<lparr> radius = r', speed = v', offset = off', color = c, isPaused = False \<rparr> elapsed' (Some p)
     = (let t = js_add (js_mul elapsed' v') off'
        in Some (js_mul r' (Math_cos t),
                 js_mul (js_mul (Math_sin (js_mul t (Fin (5 / 10)))) r') (Fin (2 / 10)),
                 js_mul r' (Math_sin t)))"
  by (simp add: Electron_useFrame_unpaused Let_def mult.commute)

lemma Electron_useFrame_paused:
  "isPaused props \<Longrightarrow> Electron_useFrame props elapsed ref = ref"
  by (cases ref) (auto simp: Electron_useFrame_def)

section \<open>Properties of rendering and frames\<close>

lemma AtomModel_shell_isPaused:
  "props \<in> set (electrons (fst (AtomModel_shell paused count shellIndex g)))
   \<Longrightarrow> isPaused props = paused"
  by (auto simp: AtomModel_shell_def Math_random_def Let_def)

lemma AtomModel_isPaused:
  assumes "AtomModel element paused g = Some (av, g')"
    and "i < length (shell_views av)" and "props \<in> set (electrons (shell_views av ! i))"
  shows "isPaused props = paused"
proof -
  from assms(2) have i: "i < length (shells element)"
    by (simp add: AtomModel_shell_views(1)[OF assms(1)] AtomModel_shells_length)
  from assms(3) show ?thesis
    by (simp add: AtomModel_shell_views(1)[OF assms(1)] AtomModel_shells_nth[OF i]
                  AtomModel_shell_isPaused)
qed

lemma useMemo_valid:
  assumes "cell = None \<or> (\<exists>d. cell = Some (d, f d))"
  shows "useMemo f deps cell = (f deps, Some (deps, f deps))"
  using assms by (auto simp: useMemo_def)

lemma mount_refs_shape:
  "length (mount_refs old svs) = length svs"
  "i < length svs \<Longrightarrow> length (mount_refs old svs ! i) = length (electrons (svs ! i))"
  by (simp_all add: mount_refs_def)

lemma App_render_invariant:
  assumes "cell = None \<or> (\<exists>d. cell = Some (d, filteredElements_compute ucd elements d))"
    and "App_render ucd elements v cell old g = Returns s"
  shows "App_invariant ucd elements s" and "view s = v"
proof -
  note memo = useMemo_valid[OF assms(1), of "searchTerm v"]
  show "view s = v"
    using assms(2)
    by (auto simp: App_render_def memo split: view_mode.splits option.splits)
  show "App_invariant ucd elements s"
  proof (cases "viewMode v")
    case Mode_2d
    with assms(2) show ?thesis
      by (auto simp: App_render_def memo App_invariant_def)
  next
    case Mode_3d
    with assms(2) obtain av g' where
      am: "AtomModel (selectedElement v) (app_isPaused v) g = Some (av, g')" and
      s: "s = \<lparr> view = v,
                filteredElements_memo =
                  Some (searchTerm v, filteredElements_compute ucd elements (searchTerm v)),
                filteredElements = filteredElements_compute ucd elements (searchTerm v),
                atom = Some av, refs = mount_refs old (shell_views av), generator = g' \<rparr>"
      by (auto simp: App_render_def memo split: option.splits)
    show ?thesis
      using Mode_3d AtomModel_isPaused[OF am]
      by (simp add: s App_invariant_def mount_refs_shape)
  qed
qed

lemma map_useFrame_paused:
  assumes "\<forall>props \<in> set ps. isPaused props" and "length rs = length ps"
  shows "map (\<lambda>(props, r). Electron_useFrame props t r) (zip ps rs) = rs"
  using assms
proof (induction ps arbitrary: rs)
  case Nil
  then show ?case by simp
next
  case (Cons p ps)
  then obtain r rs' where "rs = r # rs'" by (cases rs) auto
  with Cons show ?case
    by (simp add: Electron_useFrame_paused)
qed

lemma App_frame_view: "view (App_frame t s) = view s"
  and App_frame_atom: "atom (App_frame t s) = atom s"
  and App_frame_memo: "filteredElements_memo (App_frame t s) = filteredElements_memo s"
  and App_frame_filtered: "filteredElements (App_frame t s) = filteredElements s"
  and App_frame_generator: "generator (App_frame t s) = generator s"
  by (simp_all add: App_frame_def split: option.splits)

lemma App_frame_invariant:
  assumes "App_invariant ucd elements s"
  shows "App_invariant ucd elements (App_frame t s)"
proof (cases "atom s")
  case None
  with assms show ?thesis by (simp add: App_frame_def)
next
  case (Some av)
  with assms have len: "length (refs s) = length (shell_views av)"
    and shape: "\<And>i. i < length (shell_views av) \<Longrightarrow>
                  length (refs s ! i) = length (electrons (shell_views av ! i))"
    by (simp_all add: App_invariant_def)
  have "length (refs (App_frame t s)) = length (shell_views av)"
    by (simp add: App_frame_def Some len)
  moreover have "length (refs (App_frame t s) ! i) = length (electrons (shell_views av ! i))"
    if "i < length (shell_views av)" for i
    using that by (simp add: App_frame_def Some len shape)
  ultimately show ?thesis
    using assms Some
    by (simp add: App_invariant_def App_frame_view App_frame_atom App_frame_memo
                  App_frame_filtered)
qed

lemma App_frame_paused:
  assumes "App_invariant ucd elements s" and "app_isPaused (view s)"
  shows "App_frame t s = s"
proof (cases "atom s")
  case None
  then show ?thesis by (simp add: App_frame_def)
next
  case (Some av)
  with assms have len: "length (refs s) = length (shell_views av)"
    and shape: "\<And>i. i < length (shell_views av) \<Longrightarrow>
                  length (refs s ! i) = length (electrons (shell_views av ! i))"
    and paused: "\<And>i props. i < length (shell_views av) \<Longrightarrow>
                  props \<in> set (electrons (shell_views av ! i)) \<Longrightarrow> isPaused props"
    by (simp_all add: App_invariant_def)
  have "map (\<lambda>(sv, rs). map (\<lambda>(props, r). Electron_useFrame props t r) (zip (electrons sv) rs))
            (zip (shell_views av) (refs s)) = refs s"
  proof (rule nth_equalityI)
    show "length (map (\<lambda>(sv, rs). map (\<lambda>(props, r). Electron_useFrame props t r)
                                       (zip (electrons sv) rs))
                      (zip (shell_views av) (refs s))) = length (refs s)"
      by (simp add: len)
  next
    fix i
    assume "i < length (map (\<lambda>(sv, rs). map (\<lambda>(props, r). Electron_useFrame props t r)
                                             (zip (electrons sv) rs))
                            (zip (shell_views av) (refs s)))"
    then have i: "i < length (shell_views av)" by (simp add: len)
    have "map (\<lambda>(props, r). Electron_useFrame props t r)
              (zip (electrons (shell_views av ! i)) (refs s ! i)) = refs s ! i"
      by (rule map_useFrame_paused) (use i paused shape in auto)
    with i show "map (\<lambda>(sv, rs). map (\<lambda>(props, r). Electron_useFrame props t r)
                                      (zip (electrons sv) rs))
                     (zip (shell_views av) (refs s)) ! i = refs s ! i"
      by (simp add: len)
  qed
  then show ?thesis
    by (simp add: App_frame_def Some)
qed

lemma App_step_invariant:
  assumes "App_invariant ucd elements s" and "App_step ucd elements ev s = Returns s'"
  shows "App_invariant ucd elements s'"
proof (cases "\<exists>t. ev = Frame t")
  case True
  with assms show ?thesis
    by (auto simp: App_step_def App_frame_invariant)
next
  case False
  then have step: "App_step ucd elements ev s =
      (if App_handler ev (view s) = view s then Returns s
       else App_render ucd elements (App_handler ev (view s)) (filteredElements_memo s) (refs s)
              (generator s))"
    by (cases ev) (simp_all add: App_step_def Let_def)
  from assms(1) have cell: "filteredElements_memo s = None \<or>
      (\<exists>d. filteredElements_memo s = Some (d, filteredElements_compute ucd elements d))"
    by (auto simp: App_invariant_def)
  show ?thesis
  proof (cases "App_handler ev (view s) = view s")
    case True
    with assms step show ?thesis by simp
  next
    case False
    with assms(2) step App_render_invariant(1)[OF cell] show ?thesis by simp
  qed
qed

lemma App_run_invariant:
  "App_invariant ucd elements s \<Longrightarrow> App_run ucd elements evs s = Returns s'
   \<Longrightarrow> App_invariant ucd elements s'"
proof (induction evs arbitrary: s)
  case Nil
  then show ?case by simp
next
  case (Cons ev evs)
  then show ?case
    by (auto split: result.splits dest: App_step_invariant)
qed

lemma App_session_invariant:
  assumes "App_session ucd elements g evs = Returns s"
  shows "App_invariant ucd elements s"
proof -
  from assms obtain s0 where m: "App_mount ucd elements g = Returns s0"
    and r: "App_run ucd elements evs s0 = Returns s"
    by (auto simp: App_session_def split: result.splits)
  from m have "App_invariant ucd elements s0"
    by (auto simp: App_mount_def split: list.splits intro: App_render_invariant(1))
  with r show ?thesis by (rule App_run_invariant[rotated])
qed

lemma App_run_frames_paused:
  assumes "App_invariant ucd elements s" and "app_isPaused (view s)"
  shows "App_run ucd elements (map Frame ts) s = Returns s"
  using assms
  by (induction ts) (simp_all add: App_step_def App_frame_paused)

text \<open>
  C5. While the pause flag is set the update of an electron is skipped: whatever the
  elapsed time, the callback leaves \<open>ref.current\<close> as it is. Every electron of every shell
  on screen carries the flag of \<open>App\<close>, so in a state the application can reach with the
  flag set, any number of frames at any elapsed times leaves the state, and with it the
  position of every electron, as it was: the position after frame \<open>k + 1\<close> is the position
  after frame \<open>k\<close>.
\<close>

theorem paused_frames_freeze:
  assumes "App_session ucd elements g evs = Returns s" and "app_isPaused (view s)"
  shows "(\<forall>av. atom s = Some av \<longrightarrow>
            (\<forall>sv \<in> set (shell_views av). \<forall>props \<in> set (electrons sv).
               isPaused props \<and> (\<forall>t r. Electron_useFrame props t r = r)))
         \<and> (\<forall>ts. App_run ucd elements (map Frame ts) s = Returns s)
         \<and> (\<forall>ts t. refs (App_frame t (fold App_frame ts s)) = refs (fold App_frame ts s))"
proof -
  note inv = App_session_invariant[OF assms(1)]
  have electrons: "isPaused props \<and> (\<forall>t r. Electron_useFrame props t r = r)"
    if "atom s = Some av" "sv \<in> set (shell_views av)" "props \<in> set (electrons sv)"
    for av sv props
  proof -
    from that(2) obtain i where "i < length (shell_views av)" "sv = shell_views av ! i"
      by (auto simp: in_set_conv_nth)
    with inv that assms(2) have "isPaused props"
      by (auto simp: App_invariant_def)
    then show ?thesis
      by (simp add: Electron_useFrame_paused)
  qed
  have frames: "fold App_frame ts s = s" for ts
    by (induction ts) (simp_all add: App_frame_paused[OF inv assms(2)])
  show ?thesis
    using electrons App_run_frames_paused[OF inv assms(2)]
    by (simp add: frames App_frame_paused[OF inv assms(2)])
qed

section \<open>Properties of the search filter\<close>

lemma String_includes_sublist: "String_includes s t \<longleftrightarrow> sublist t s"
  by (induction s) (simp_all add: sublist_Cons_right)

lemma String_includes_empty: "String_includes s []"
  by (simp add: String_includes_sublist)

lemma toLowerCase_js_H: "toLowerCase ucd (js ''H'') = js ''h''"
  by (simp add: toLowerCase_def toLowerCase_unit_def modelled_unit_def js_def)

lemma toLowerCase_js_h: "toLowerCase ucd (js ''h'') = js ''h''"
  by (simp add: toLowerCase_def toLowerCase_unit_def modelled_unit_def js_def)

lemma Number_toString_digits: "set (Number_toString n) \<subseteq> {48..57}"
proof (induction n rule: Number_toString.induct)
  case (1 n)
  show ?case
  proof (cases "n < 10")
    case True
    then show ?thesis
      by (subst Number_toString.simps) simp
  next
    case False
    have "48 + n mod 10 \<le> 57"
      by simp
    with False 1 show ?thesis
      by (subst Number_toString.simps) simp
  qed
qed


lemma Number_toString_no_letter:
  "c \<notin> {48..57} \<Longrightarrow> \<not> String_includes (Number_toString n) [c]"
proof
  assume c: "c \<notin> {48..57}" and "String_includes (Number_toString n) [c]"
  then have "sublist [c] (Number_toString n)"
    by (simp add: String_includes_sublist)
  then have "c \<in> set (Number_toString n)"
    by (auto simp: sublist_def)
  with Number_toString_digits[of n] c show False by blast
qed








lemma filteredElements_case:
  assumes "\<forall>e \<in> set elements.
             String_includes (hebrewName e) q = String_includes (hebrewName e) q'"
    and "\<forall>e \<in> set elements.
             String_includes (Number_toString (number e)) q
               = String_includes (Number_toString (number e)) q'"
    and "toLowerCase ucd q = toLowerCase ucd q'"
  shows "filteredElements_compute ucd elements q = filteredElements_compute ucd elements q'"
  unfolding filteredElements_compute_def
  by (rule filter_cong) (use assms in \<open>simp_all add: filteredElements_callback_def\<close>)

text \<open>
  C7. The filter of the empty search term is the whole table, in order. The filters of
  \<open>"H"\<close> and \<open>"h"\<close> are the same list on every table in which no Hebrew name contains the
  Latin letter \<open>H\<close> or \<open>h\<close>: the Hebrew name is compared as it is written, only the English
  name and the symbol are compared without regard to case.
\<close>

theorem filter_case_and_empty:
  "((\<forall>e \<in> set elements. \<not> String_includes (hebrewName e) (js ''H'')
                          \<and> \<not> String_includes (hebrewName e) (js ''h''))
      \<longrightarrow> filteredElements_compute ucd elements (js ''H'')
            = filteredElements_compute ucd elements (js ''h''))
   \<and> filteredElements_compute ucd elements (js '''') = elements"
proof -
  have "filteredElements_compute ucd elements (js ''H'') = filteredElements_compute ucd elements (js ''h'')"
    if "\<forall>e \<in> set elements. \<not> String_includes (hebrewName e) (js ''H'')
                             \<and> \<not> String_includes (hebrewName e) (js ''h'')"
  proof (rule filteredElements_case)
    from that show "\<forall>e \<in> set elements.
        String_includes (hebrewName e) (js ''H'') = String_includes (hebrewName e) (js ''h'')"
      by simp
    show "\<forall>e \<in> set elements.
        String_includes (Number_toString (number e)) (js ''H'')
          = String_includes (Number_toString (number e)) (js ''h'')"
      by (simp add: js_def Number_toString_no_letter)
    show "toLowerCase ucd (js ''H'') = toLowerCase ucd (js ''h'')"
      by (simp only: toLowerCase_js_H toLowerCase_js_h)
  qed
  moreover have "filteredElements_compute ucd elements (js '''') = elements"
    by (simp add: filteredElements_compute_def filteredElements_callback_def js_def
                  String_includes_empty)
  ultimately show ?thesis by blast
qed

section \<open>Properties of the rendered atom\<close>

lemma Nucleus_loop_returns_finite:
  assumes "Nucleus_loop protons tot i pts = Some y"
  shows "tot \<noteq> PosInf"
  by (rule Nucleus_loop.raw_induct[where P = "\<lambda>protons tot i pts y. tot \<noteq> PosInf", OF _ assms])
     (auto split: if_splits)

text \<open>The placement loop does not return when the total is plus infinity.\<close>

lemma Nucleus_loop_PosInf: "Nucleus_loop protons PosInf i pts = None"
  using Nucleus_loop_returns_finite[of protons PosInf i pts]
  by (cases "Nucleus_loop protons PosInf i pts") auto

lemma js_add_sub_cancel: "js_add (Fin n) (js_sub r (Fin n)) = r"
  by (cases r) (simp_all add: js_sub_def)

text \<open>
  The total of the nucleus of an element is its rounded mass: the atomic number is added
  to the neutron count it was subtracted from.
\<close>

lemma AtomModel_unfold:
  "AtomModel element paused g =
     map_option
       (\<lambda>pts. (\<lparr> nucleus = pts,
                  shell_views = fst (AtomModel_shells paused 0 (shells element) g) \<rparr>,
               snd (AtomModel_shells paused 0 (shells element) g)))
       (Nucleus_loop (Fin (real (number element)))
          (Math_round (parseFloat (atomicMass element))) 0 [])"
  by (simp add: AtomModel_def Nucleus_particles_def js_add_sub_cancel Let_def case_prod_beta
           split: option.splits)

lemma parseFloat_examples:
  "parseFloat (js ''1.008'') = Fin (1008 / 1000)"
  "parseFloat (js ''6.94'') = Fin (694 / 100)"
  "parseFloat (js ''2.2'') = Fin (22 / 10)"
  "parseFloat (js ''-5'') = Fin (- 5)"
  "parseFloat (js ''unknown'') = NaN"
  by (simp_all add: parseFloat_def js_def isDigit_def StrWhiteSpaceChar_def
                    DecimalDigits_value_def)

lemma hydrogen_fields:
  "number hydrogen = 1" "atomicMass hydrogen = js ''1.008''" "shells hydrogen = [1]"
  "number hydrogen_unknown_mass = 1" "atomicMass hydrogen_unknown_mass = js ''unknown''"
  "shells hydrogen_unknown_mass = [1]"
  "number hydrogen_negative_mass = 1" "atomicMass hydrogen_negative_mass = js ''-5''"
  "shells hydrogen_negative_mass = [1]"
  by (simp_all add: hydrogen_def hydrogen_unknown_mass_def hydrogen_negative_mass_def
                    example_element_def)

lemma lithium_fields:
  "number lithium = 3" "atomicMass lithium = js ''6.94''" "shells lithium = [2, 1]"
  "number lithium_light_mass = 3" "atomicMass lithium_light_mass = js ''2.2''"
  "shells lithium_light_mass = [2, 1]"
  by (simp_all add: lithium_def lithium_light_mass_def example_element_def)

text \<open>
  C8, as the code has it. When the mass text of an element does not parse to a number,
  the neutron count and the total are NaN and the loop guard \<open>i < NaN\<close> fails at once: the
  render returns and raises nothing, the nucleus has no particle at all, not even the
  protons of the element, and the shells are drawn as for any element.
\<close>

theorem unparseable_mass_empty_nucleus:
  assumes "parseFloat (atomicMass element) = NaN"
  shows "\<exists>av g'. AtomModel element paused g = Some (av, g')
           \<and> nucleus av = []
           \<and> length (shell_views av) = length (shells element)"
  by (simp add: AtomModel_unfold assms Nucleus_loop_stop AtomModel_shells_length)

theorem unparseable_mass_empty_nucleus_witness:
  "parseFloat (atomicMass hydrogen_unknown_mass) = NaN
   \<and> (\<exists>av g'. AtomModel hydrogen_unknown_mass False (\<lambda>k. 0) = Some (av, g')
         \<and> nucleus av = [] \<and> length (shell_views av) = 1)"
  using unparseable_mass_empty_nucleus[of hydrogen_unknown_mass False "\<lambda>k. 0"]
  by (simp add: hydrogen_fields parseFloat_examples)

text \<open>
  C8 as the specification states it fails on hydrogen with the mass text \<open>"unknown"\<close>:
  the nucleus drawn has no particle, where a nucleus of one proton and no neutron has one.
\<close>

theorem unparseable_mass_counterexample:
  "parseFloat (atomicMass hydrogen_unknown_mass) = NaN
   \<and> map_option (\<lambda>r. length (nucleus (fst r)))
        (AtomModel hydrogen_unknown_mass False (\<lambda>k. 0)) = Some 0
   \<and> map_option length
        (Nucleus_particles (Fin (real (number hydrogen_unknown_mass))) (Fin 0)) = Some 1"
proof -
  have "js_add (Fin (real (number hydrogen_unknown_mass))) (Fin 0) = Fin 1"
    by (simp add: hydrogen_fields)
  from Nucleus_particles_finite[OF this] show ?thesis
    by (simp add: AtomModel_unfold hydrogen_fields parseFloat_examples Nucleus_loop_stop)
qed

lemma Nucleus_particle_isProton:
  "isProton (Nucleus_particle protons tot i) = js_lt (Fin (real i)) protons"
  by (simp add: Nucleus_particle_def Let_def)

text \<open>
  C10, as the code has it. When the rounded mass of an element is smaller than its atomic
  number, the render returns and raises nothing, and every particle of the nucleus is
  flagged as a proton. The nucleus has as many particles as the rounded mass when that is
  not negative, and none when it is negative or minus infinity; for a positive atomic
  number that is fewer than the protons of the element.
\<close>

theorem light_mass_nucleus:
  assumes "js_lt (Math_round (parseFloat (atomicMass element))) (Fin (real (number element)))"
  shows "\<exists>av g'. AtomModel element paused g = Some (av, g')
           \<and> (\<forall>q \<in> set (nucleus av). isProton q)
           \<and> (0 < number element \<longrightarrow> length (nucleus av) < number element)
           \<and> (case parseFloat (atomicMass element) of
                 Fin m \<Rightarrow> int (length (nucleus av)) = max 0 (round m)
               | _ \<Rightarrow> nucleus av = [])"
proof (cases "parseFloat (atomicMass element)")
  case NaN
  with assms show ?thesis by simp
next
  case PosInf
  with assms show ?thesis by simp
next
  case NegInf
  then show ?thesis
    by (simp add: AtomModel_unfold Nucleus_loop_stop)
next
  case (Fin m)
  define k where "k = round m"
  have rounded: "Math_round (parseFloat (atomicMass element)) = Fin (of_int k)"
    by (simp add: Fin k_def round_def)
  with assms have less: "k < int (number element)"
    by simp
  have ceil: "nat \<lceil>(of_int k :: real)\<rceil> = nat k" by simp
  let ?pts = "map (Nucleus_particle (Fin (real (number element))) (Fin (of_int k))) [0..<nat k]"
  have run: "Nucleus_loop (Fin (real (number element))) (Fin (of_int k)) 0 [] = Some ?pts"
    by (simp only: Nucleus_loop_finite ceil append_Nil)
  have protons: "\<forall>q \<in> set ?pts. isProton q"
  proof
    fix q assume "q \<in> set ?pts"
    then obtain i where i: "i < nat k"
      and q: "q = Nucleus_particle (Fin (real (number element))) (Fin (of_int k)) i"
      by auto
    from i less have "i < number element" by linarith
    then show "isProton q"
      by (simp add: q Nucleus_particle_isProton)
  qed
  have fewer: "0 < number element \<longrightarrow> length ?pts < number element"
    using less by auto
  have count: "int (length ?pts) = max 0 (round m)"
    by (simp add: k_def)
  let ?av = "\<lparr> nucleus = ?pts,
               shell_views = fst (AtomModel_shells paused 0 (shells element) g) \<rparr>"
  have am: "AtomModel element paused g
              = Some (?av, snd (AtomModel_shells paused 0 (shells element) g))"
    by (simp only: AtomModel_unfold rounded run option.map)
  have all: "AtomModel element paused g
          = Some (?av, snd (AtomModel_shells paused 0 (shells element) g))
        \<and> (\<forall>q \<in> set (nucleus ?av). isProton q)
        \<and> (0 < number element \<longrightarrow> length (nucleus ?av) < number element)
        \<and> (case parseFloat (atomicMass element) of
              Fin m \<Rightarrow> int (length (nucleus ?av)) = max 0 (round m)
            | _ \<Rightarrow> nucleus ?av = [])"
    using am protons fewer count
    by (simp only: Fin jsnum.case Atom_view.select_convs simp_thms)
  show ?thesis
    by (rule exI[of _ ?av], rule exI[of _ "snd (AtomModel_shells paused 0 (shells element) g)"])
       (fact all)
qed

theorem light_mass_nucleus_witness:
  "js_lt (Math_round (parseFloat (atomicMass lithium_light_mass)))
         (Fin (real (number lithium_light_mass)))
   \<and> (\<exists>av g'. AtomModel lithium_light_mass False (\<lambda>k. 0) = Some (av, g')
         \<and> list_all isProton (nucleus av) \<and> length (nucleus av) = 2)"
proof -
  have less: "js_lt (Math_round (parseFloat (atomicMass lithium_light_mass)))
                    (Fin (real (number lithium_light_mass)))"
    by (simp add: lithium_fields parseFloat_examples)
  have "round (22 / 10 :: real) = 2"
    by (simp add: round_def)
  with light_mass_nucleus[OF less, of False "\<lambda>k. 0"] less show ?thesis
    by (auto simp: lithium_fields parseFloat_examples list_all_iff)
qed

text \<open>
  C10 as the specification states it fails on hydrogen with the mass text \<open>"-5"\<close>: the
  rounded mass is \<open>-5\<close>, below the atomic number 1, and the nucleus has no particle, not
  \<open>-5\<close> of them.
\<close>

theorem light_mass_counterexample:
  "js_lt (Math_round (parseFloat (atomicMass hydrogen_negative_mass)))
         (Fin (real (number hydrogen_negative_mass)))
   \<and> Math_round (parseFloat (atomicMass hydrogen_negative_mass)) = Fin (- 5)
   \<and> map_option (\<lambda>r. Fin (real (length (nucleus (fst r)))))
        (AtomModel hydrogen_negative_mass False (\<lambda>k. 0)) = Some (Fin 0)"
  by (simp add: AtomModel_unfold hydrogen_fields parseFloat_examples Nucleus_loop_stop)

lemma AtomModel_rotation:
  assumes "AtomModel element paused g = Some (av, g')"
  shows "length (shell_views av) = length (shells element)"
    and "i < length (shells element) \<Longrightarrow>
           orbit_rotation (shell_views av ! i)
             = (Fin (g (3 * i) * pi), Fin (g (3 * i + 1) * pi), Fin (g (3 * i + 2) * pi))"
    and "g' = (\<lambda>n. g (n + 3 * length (shells element)))"
proof -
  show "length (shell_views av) = length (shells element)"
    by (simp add: AtomModel_shell_views(1)[OF assms] AtomModel_shells_length)
  show "g' = (\<lambda>n. g (n + 3 * length (shells element)))"
    by (simp add: AtomModel_shell_views(2)[OF assms] AtomModel_shells_generator)
  show "orbit_rotation (shell_views av ! i)
          = (Fin (g (3 * i) * pi), Fin (g (3 * i + 1) * pi), Fin (g (3 * i + 2) * pi))"
    if "i < length (shells element)"
    by (simp add: AtomModel_shell_views(1)[OF assms] AtomModel_shells_nth[OF that]
                  AtomModel_shell_orbit(2) add.commute)
qed

lemma App_render_atom:
  assumes "App_render ucd elements v cell old g = Returns s'" and "atom s' = Some av"
  shows "AtomModel (selectedElement v) (app_isPaused v) g = Some (av, generator s')"
  using assms
  by (auto simp: App_render_def case_prod_beta split: view_mode.splits option.splits)

lemma App_render_view:
  assumes "App_render ucd elements v cell old g = Returns s'"
  shows "view s' = v"
  using assms
  by (auto simp: App_render_def case_prod_beta split: view_mode.splits option.splits)

text \<open>
  What an event does to the tilts. A frame, and an event whose handler leaves every hook
  as it was, render nothing: the tilts on screen and the random generator stay as they
  are. Every other event, whether it sets the selected element, the search term, the
  pause flag, a panel, the background or the view mode, renders \<open>AtomModel\<close> again, and
  the render body draws the three tilt angles of every shell anew: shell \<open>i\<close> takes the
  values \<open>3i\<close>, \<open>3i + 1\<close> and \<open>3i + 2\<close> that the generator gives next, each times \<open>pi\<close>.
\<close>

lemma App_step_tilts:
  assumes "App_step ucd elements ev s = Returns s'"
  shows "(App_handler ev (view s) = view s \<longrightarrow>
            atom s' = atom s \<and> generator s' = generator s)
         \<and> (App_handler ev (view s) \<noteq> view s \<longrightarrow>
              (\<forall>av. atom s' = Some av \<longrightarrow>
                 length (shell_views av) = length (shells (selectedElement (view s')))
                 \<and> (\<forall>i < length (shell_views av).
                       orbit_rotation (shell_views av ! i)
                         = (Fin (generator s (3 * i) * pi),
                            Fin (generator s (3 * i + 1) * pi),
                            Fin (generator s (3 * i + 2) * pi)))
                 \<and> generator s' = (\<lambda>n. generator s (n + 3 * length (shell_views av)))))"
proof (cases "\<exists>t. ev = Frame t")
  case True
  with assms show ?thesis
    by (auto simp: App_step_def App_frame_atom App_frame_generator)
next
  case False
  then have step: "App_step ucd elements ev s =
      (if App_handler ev (view s) = view s then Returns s
       else App_render ucd elements (App_handler ev (view s)) (filteredElements_memo s) (refs s)
              (generator s))"
    by (cases ev) (simp_all add: App_step_def Let_def)
  show ?thesis
  proof (cases "App_handler ev (view s) = view s")
    case True
    with assms step show ?thesis by simp
  next
    case changed: False
    with assms step have render:
      "App_render ucd elements (App_handler ev (view s)) (filteredElements_memo s) (refs s)
         (generator s) = Returns s'"
      by simp
    have "length (shell_views av) = length (shells (selectedElement (view s')))
          \<and> (\<forall>i < length (shell_views av).
                orbit_rotation (shell_views av ! i)
                  = (Fin (generator s (3 * i) * pi),
                     Fin (generator s (3 * i + 1) * pi),
                     Fin (generator s (3 * i + 2) * pi)))
          \<and> generator s' = (\<lambda>n. generator s (n + 3 * length (shell_views av)))"
      if "atom s' = Some av" for av
    proof -
      note am = App_render_atom[OF render that]
      note v = App_render_view[OF render]
      from AtomModel_rotation[OF am] show ?thesis
        by (simp add: v)
    qed
    with changed show ?thesis by simp
  qed
qed

section \<open>The application on the example records\<close>

lemma hydrogen_AtomModel:
  "AtomModel hydrogen paused g =
     Some (\<lparr> nucleus = [Nucleus_particle (Fin 1) (Fin 1) 0],
              shell_views = [fst (AtomModel_shell paused 1 0 g)] \<rparr>,
           \<lambda>k. g (k + 3))"
  by (simp add: AtomModel_unfold hydrogen_fields parseFloat_examples Nucleus_loop_finite
                Let_def case_prod_beta AtomModel_shell_generator)

lemma hydrogen_mount:
  "App_mount ucd (hydrogen # rest) g =
     Returns \<lparr> view = \<lparr> selectedElement = hydrogen, searchTerm = [], viewMode = Mode_3d,
                         showInfo = True, showList = True, background = Space,
                         app_isPaused = False \<rparr>,
               filteredElements_memo = Some ([], hydrogen # rest),
               filteredElements = hydrogen # rest,
               atom = Some \<lparr> nucleus = [Nucleus_particle (Fin 1) (Fin 1) 0],
                             shell_views = [fst (AtomModel_shell False 1 0 g)] \<rparr>,
               refs = [[Some (Fin 0, Fin 0, Fin 0)]],
               generator = (\<lambda>k. g (k + 3)) \<rparr>"
  by (simp add: App_mount_def App_render_def useMemo_def hydrogen_AtomModel mount_refs_def
                AtomModel_shell_orbit filteredElements_compute_def
                filteredElements_callback_def String_includes_empty)

lemma lithium_AtomModel_returns:
  "\<exists>av g'. AtomModel lithium paused g = Some (av, g')"
  by (simp add: AtomModel_unfold lithium_fields parseFloat_examples Nucleus_loop_finite)

theorem shell_orbit_and_offsets_witness:
  "\<exists>av g'. AtomModel lithium False (\<lambda>k. 0) = Some (av, g')
     \<and> length (shell_views av) = 2
     \<and> orbit_radius (shell_views av ! 0) = Fin (12 / 10)
     \<and> length (electrons (shell_views av ! 0)) = 2
     \<and> speed (electrons (shell_views av ! 0) ! 1) = Fin 2
     \<and> offset (electrons (shell_views av ! 0) ! 0) = Fin 0
     \<and> offset (electrons (shell_views av ! 0) ! 1) = Fin pi"
proof -
  from lithium_AtomModel_returns obtain av g'
    where am: "AtomModel lithium False (\<lambda>k. 0) = Some (av, g')" by blast
  have s: "0 < length (shells lithium)" and c: "2 = shells lithium ! 0"
    by (simp_all add: lithium_fields)
  note th = shell_orbit_and_offsets[OF am s c]
  from th have shape: "length (shell_views av) = 2"
    "orbit_radius (shell_views av ! 0) = Fin (12 / 10)"
    "length (electrons (shell_views av ! 0)) = 2"
    by (simp_all add: lithium_fields)
  from th have each: "\<forall>e < 2.
      speed (electrons (shell_views av ! 0) ! e) = Fin 2
      \<and> offset (electrons (shell_views av ! 0) ! e) = Fin (real e / 2 * (2 * pi))"
    by simp
  from each[rule_format, of 0] each[rule_format, of 1] am shape show ?thesis
    by simp
qed

theorem Electron_useFrame_position_witness:
  "Electron_useFrame
     \<lparr> radius = Fin (12 / 10), speed = Fin 2, offset = Fin 0, color = js ''#ffff00'',
       isPaused = False \<rparr> (Fin (pi / 4)) (Some (Fin 7, Fin 8, Fin 9))
   = Some (Fin 0, Fin (sqrt 2 * 3 / 25), Fin (12 / 10))"
proof -
  have "sin (pi / 4) = sqrt 2 / 2" by (rule sin_45)
  then show ?thesis
    using Electron_useFrame_position[of "12 / 10" 2 0 "js ''#ffff00''" "pi / 4"
            "(Fin 7, Fin 8, Fin 9)", THEN conjunct1]
    by (simp add: Let_def)
qed

lemma hydrogen_paused_session:
  "\<exists>s. App_session ucd [hydrogen] g [TogglePause] = Returns s \<and> app_isPaused (view s)"
  by (simp add: App_session_def hydrogen_mount App_step_def App_render_def hydrogen_AtomModel
                case_prod_beta)

theorem paused_frames_freeze_witness:
  "\<exists>s. App_session example_ucd [hydrogen] (\<lambda>k. 0) [TogglePause] = Returns s
     \<and> app_isPaused (view s)
     \<and> App_run example_ucd [hydrogen] (map Frame [Fin 1, Fin 2]) s = Returns s
     \<and> refs (App_frame (Fin 3) s) = refs s"
proof -
  from hydrogen_paused_session obtain s
    where s: "App_session example_ucd [hydrogen] (\<lambda>k. 0) [TogglePause] = Returns s"
      and p: "app_isPaused (view s)" by blast
  note th = paused_frames_freeze[OF s p]
  from th have "App_run example_ucd [hydrogen] (map Frame [Fin 1, Fin 2]) s = Returns s"
    by blast
  moreover from th have "refs (App_frame (Fin 3) (fold App_frame [] s)) = refs (fold App_frame [] s)"
    by blast
  ultimately show ?thesis
    using s p by simp
qed





theorem filter_case_and_empty_witness:
  "\<not> String_includes (hebrewName hydrogen) (js ''H'')
   \<and> \<not> String_includes (hebrewName hydrogen) (js ''h'')
   \<and> \<not> String_includes (hebrewName zinc) (js ''H'')
   \<and> \<not> String_includes (hebrewName zinc) (js ''h'')
   \<and> filteredElements_compute example_ucd [hydrogen, zinc] (js ''H'')
       = filteredElements_compute example_ucd [hydrogen, zinc] (js ''h'')
   \<and> filteredElements_compute example_ucd [hydrogen, zinc] (js '''') = [hydrogen, zinc]"
  using filter_case_and_empty[of "[hydrogen, zinc]"]
  by (simp add: hydrogen_def zinc_def example_element_def js_def)

text \<open>
  C7 as the specification states it fails on a table whose only record has the Hebrew name
  \<open>"H"\<close>: the search term \<open>"H"\<close> finds the record and the search term \<open>"h"\<close> does not.
\<close>

theorem filter_case_counterexample:
  "filteredElements_compute example_ucd [latin_hebrewName] (js ''H'') = [latin_hebrewName]
   \<and> filteredElements_compute example_ucd [latin_hebrewName] (js ''h'') = []"
  by (simp add: filteredElements_compute_def filteredElements_callback_def latin_hebrewName_def
                example_element_def js_def toLowerCase_def toLowerCase_unit_def
                modelled_unit_def Number_toString.simps)

text \<open>
  C9. The specification has the three tilt angles of a shell drawn once when an element
  is selected and unchanged, across frames and renders, until the selection changes. The
  code draws them with \<open>Math.random()\<close> in the render body of \<open>AtomModel\<close>, where nothing
  memoises them, although the particles of the nucleus, in the same file, are memoised.
  On hydrogen the first render tilts the orbit by \<open>(pi/2, pi/3, pi/4)\<close>; after a frame, a
  press on the pause button and another frame, hydrogen is still the selected element
  and the orbit is tilted by \<open>(pi/5, pi/6, pi/7)\<close>.
\<close>

theorem pause_redraws_tilts:
  "rendered_selection (App_session example_ucd [hydrogen] example_generator []) = Some hydrogen
   \<and> rendered_tilts (App_session example_ucd [hydrogen] example_generator [])
       = Some [(Fin (pi / 2), Fin (pi / 3), Fin (pi / 4))]
   \<and> rendered_selection
       (App_session example_ucd [hydrogen] example_generator [Frame (Fin 1), TogglePause, Frame (Fin 2)])
       = Some hydrogen
   \<and> rendered_tilts
       (App_session example_ucd [hydrogen] example_generator [Frame (Fin 1), TogglePause, Frame (Fin 2)])
       = Some [(Fin (pi / 5), Fin (pi / 6), Fin (pi / 7))]"
  by (simp add: rendered_selection_def rendered_tilts_def App_session_def hydrogen_mount
                App_step_def App_render_def hydrogen_AtomModel case_prod_beta
                App_frame_view App_frame_atom App_frame_memo App_frame_generator
                AtomModel_shell_orbit example_generator_def)

end
